theory Spec2Isabelle
  imports Main "HOL-Library.Word"
begin

section \<open>Data model of \<^verbatim>\<open>Source/Main.cpp\<close>\<close>

text \<open>
  The enumeration \<^verbatim>\<open>LedStates\<close> and the timer constants of the source.
\<close>

datatype LedStates = Dark | Light | Blink | FastBlink

definition NUM_LED_PEDALS :: int where "NUM_LED_PEDALS = 10"
definition UP :: int where "UP = 10"
definition DOWN :: int where "DOWN = 11"
definition TIMER_OFF :: int where "TIMER_OFF = 0"
definition TIMER_FASTBLINK :: int where "TIMER_FASTBLINK = 1"
definition TIMER_BLINK :: int where "TIMER_BLINK = 3"

text \<open>
  \<^verbatim>\<open>struct LED { int index_; bool on_; int timer_; LedStates state_; }\<close>.
  The fields keep their names without the trailing underscore.
\<close>

record LED =
  index :: int
  on :: bool
  timer :: int
  state :: LedStates

text \<open>
  An argument of an OSC message, by its type tag. The payload of a float is kept as its
  32 raw bits: no handler of the program reads it as a number.
\<close>

datatype OSCArgument =
    OInt32 int
  | OFloat32 "32 word"
  | OString string
  | OBlob "8 word list"

text \<open>
  What the program emits. \<open>MidiWrite cc v\<close> is the three-byte frame
  \<^verbatim>\<open>{MIDI_CMD_CONTROL, cc, v}\<close> handed to \<^verbatim>\<open>snd_rawmidi_write\<close> (the first byte is a
  constant of the ALSA headers); a short write is only reported on the error stream, so
  the frame is recorded whatever the device answers. \<open>OscSend a args\<close> is
  \<^verbatim>\<open>oscSender.send(a, args...)\<close>.
\<close>

datatype event =
    MidiWrite "8 word" "8 word"
  | OscSend string "OSCArgument list"

text \<open>
  Where the C++ has undefined behaviour the model stops with a fault:
  \<^verbatim>\<open>Array::getReference\<close> outside the array, reading an argument at or past
  \<^verbatim>\<open>message.end()\<close>, a \<^verbatim>\<open>static_cast<LedStates>\<close> of a value that is no enumerator, and
  the overflow of a signed addition.
\<close>

datatype fault =
    ArrayIndexOutOfRange int
  | ArgumentPastEnd
  | EnumOutOfRange int
  | SignedOverflow

fun thenDo :: "fault + 'a \<Rightarrow> ('a \<Rightarrow> fault + 'b) \<Rightarrow> fault + 'b" where
  "thenDo (Inl e) f = Inl e"
| "thenDo (Inr x) f = f x"

text \<open>
  The member variables of \<^verbatim>\<open>loop4r_ledsApplication\<close> that the timer and the message
  handlers read or write. \<open>midiOut\<close> says whether \<^verbatim>\<open>midiOut_\<close> is a non-null handle.
  \<open>out\<close> is the trace of everything emitted so far, oldest first.
\<close>

record app =
  currentReceivePort :: int
  currentSendPort :: int
  oscSendPort :: int
  oscReceivePort :: int
  engineId :: int
  leds :: "LED list"
  midiOutName :: string
  midiOut :: bool
  ledCount :: int
  pinged :: bool
  hostUrl :: string
  version :: string
  heartbeat :: int
  heartbeatOn :: bool
  out :: "event list"

text \<open>
  What the outside world answers during one call: whether \<^verbatim>\<open>oscSender.connect\<close>,
  \<^verbatim>\<open>oscReceiver.connect\<close> and \<^verbatim>\<open>snd_rawmidi_open\<close> would succeed.
\<close>

record world =
  senderConnects :: bool
  receiverConnects :: bool
  midiOpens :: bool

definition emit :: "event \<Rightarrow> app \<Rightarrow> app" where
  "emit e s = s\<lparr>out := out s @ [e]\<rparr>"

section \<open>Control-surface writer\<close>

text \<open>\<^verbatim>\<open>int pedalIndex(int controllerValue)\<close>\<close>

definition pedalIndex :: "int \<Rightarrow> int" where
  "pedalIndex controllerValue =
     (if 1 \<le> controllerValue \<and> controllerValue \<le> 9 then controllerValue - 1
      else if controllerValue = 0 then 9
      else if controllerValue = 10 then UP
      else if controllerValue = 11 then DOWN
      else controllerValue)"

text \<open>\<^verbatim>\<open>uint8 ledNumber(int pedalIdx)\<close>: the result is cut to eight bits.\<close>

definition ledNumber :: "int \<Rightarrow> 8 word" where
  "ledNumber pedalIdx =
     (if 0 \<le> pedalIdx \<and> pedalIdx \<le> 8 then word_of_int (pedalIdx + 1)
      else if pedalIdx = 9 then 0
      else word_of_int pedalIdx)"

text \<open>
  \<^verbatim>\<open>leds_.getReference(i)\<close>: defined for \<open>0 \<le> i < leds_.size()\<close> only.
\<close>

definition inRange :: "int \<Rightarrow> 'a list \<Rightarrow> bool" where
  "inRange i xs = (0 \<le> i \<and> i < int (length xs))"

definition setOn :: "int \<Rightarrow> bool \<Rightarrow> LED list \<Rightarrow> LED list" where
  "setOn i b xs = xs[nat i := (xs ! nat i)\<lparr>on := b\<rparr>]"

text \<open>\<^verbatim>\<open>void ledOn(int pedalIdx)\<close> and \<^verbatim>\<open>void ledOff(int pedalIdx)\<close>\<close>

definition ledOn :: "int \<Rightarrow> app \<Rightarrow> fault + app" where
  "ledOn pedalIdx s =
     (if inRange pedalIdx (leds s)
      then Inr (emit (MidiWrite 106 (ledNumber pedalIdx)) (s\<lparr>leds := setOn pedalIdx True (leds s)\<rparr>))
      else Inl (ArrayIndexOutOfRange pedalIdx))"

definition ledOff :: "int \<Rightarrow> app \<Rightarrow> fault + app" where
  "ledOff pedalIdx s =
     (if inRange pedalIdx (leds s)
      then Inr (emit (MidiWrite 107 (ledNumber pedalIdx)) (s\<lparr>leds := setOn pedalIdx False (leds s)\<rparr>))
      else Inl (ArrayIndexOutOfRange pedalIdx))"

text \<open>\<^verbatim>\<open>void updateLedState(LED& led)\<close> and \<^verbatim>\<open>void updateLeds()\<close>: writes only.\<close>

definition updateLedState :: "LED \<Rightarrow> app \<Rightarrow> app" where
  "updateLedState led s = emit (MidiWrite (if on led then 106 else 107) (ledNumber (index led))) s"

definition updateLeds :: "app \<Rightarrow> app" where
  "updateLeds s = fold updateLedState (leds s) s"

section \<open>Connection manager\<close>

text \<open>\<^verbatim>\<open>bool isValidOscPort(int port)\<close> and \<^verbatim>\<open>void connect()\<close>\<close>

definition isValidOscPort :: "int \<Rightarrow> bool" where
  "isValidOscPort port = (port > 0 \<and> port < 65536)"

definition connect :: "world \<Rightarrow> app \<Rightarrow> app" where
  "connect w s =
     (let portToConnect = oscReceivePort s in
      if \<not> isValidOscPort portToConnect then s
      else if receiverConnects w then s\<lparr>currentReceivePort := portToConnect\<rparr>
      else s)"

text \<open>
  \<^verbatim>\<open>bool tryToConnectOsc()\<close>: the state after the call and the value returned.
  No statement of the program assigns \<^verbatim>\<open>pinged_\<close>.
\<close>

definition tryToConnectOsc :: "world \<Rightarrow> app \<Rightarrow> bool \<times> app" where
  "tryToConnectOsc w s =
     (let s1 = (if currentSendPort s < 0 \<and> senderConnects w
                then s\<lparr>currentSendPort := oscSendPort s\<rparr> else s);
          s2 = (if currentReceivePort s1 < 0 then connect w s1 else s1)
      in if currentSendPort s2 > 0 \<and> currentReceivePort s2 > 0
         then (True,
               if \<not> pinged s2
               then emit (OscSend ''/loop4r/ping''
                      [OString ''127.0.0.1'', OInt32 (currentReceivePort s2), OString ''/pingack'']) s2
               else s2)
         else (False, s2))"

section \<open>Scheduler tick\<close>

text \<open>A loop whose body may fault: the first fault ends it.\<close>

fun forEach :: "'a list \<Rightarrow> ('a \<Rightarrow> app \<Rightarrow> fault + app) \<Rightarrow> app \<Rightarrow> fault + app" where
  "forEach [] body s = Inr s"
| "forEach (x # xs) body s = thenDo (body x s) (forEach xs body)"

text \<open>
  Lines 181 to 194 of \<^verbatim>\<open>timerCallback\<close>: a device that has a name and no handle is
  opened, and when that succeeds the pedal LEDs are switched off.
\<close>

definition openMidiOut :: "world \<Rightarrow> app \<Rightarrow> fault + app" where
  "openMidiOut w s =
     (if midiOutName s \<noteq> [] \<and> \<not> midiOut s
      then (if midiOpens w
            then forEach [0..NUM_LED_PEDALS - 1] ledOff (s\<lparr>midiOut := True\<rparr>)
            else Inr s)
      else Inr s)"

text \<open>Lines 207 to 225: the liveness countdown of a link that is up.\<close>

definition heartbeatStep :: "world \<Rightarrow> app \<Rightarrow> app" where
  "heartbeatStep w s =
     (if heartbeat s = 0
      then emit (OscSend ''/loop4r/ping''
             [OString ''127.0.0.1'', OInt32 (currentReceivePort s), OString ''/heartbeat'']) s
      else if heartbeat s < - 5
      then (let (connected, s1) =
                  tryToConnectOsc w (s\<lparr>currentReceivePort := - 1, currentSendPort := - 1\<rparr>)
            in if connected then s1\<lparr>heartbeat := 5\<rparr> else s1)
      else s\<lparr>heartbeat := heartbeat s - 1\<rparr>)"

text \<open>
  Lines 230 to 247: the body of the loop over \<^verbatim>\<open>leds_\<close>, for the LED at position \<open>k\<close>.
  \<^verbatim>\<open>ledOn\<close> and \<^verbatim>\<open>ledOff\<close> write the LED found at \<^verbatim>\<open>led.index_\<close>, the timer is written
  through the reference \<^verbatim>\<open>led\<close> itself.
\<close>

definition setTimer :: "nat \<Rightarrow> int \<Rightarrow> LED list \<Rightarrow> LED list" where
  "setTimer k t xs = xs[k := (xs ! k)\<lparr>timer := t\<rparr>]"

definition blinkLed :: "nat \<Rightarrow> app \<Rightarrow> fault + app" where
  "blinkLed k s =
     (let led = leds s ! k in
      if state led = Blink \<or> state led = FastBlink
      then (if timer led \<le> 0
            then thenDo (if on led then ledOff (index led) s else ledOn (index led) s)
                   (\<lambda>s1. Inr (s1\<lparr>leds := setTimer k
                      (if state (leds s1 ! k) = Blink then TIMER_BLINK else TIMER_FASTBLINK) (leds s1)\<rparr>))
            else Inr (s\<lparr>leds := setTimer k (timer led - 1) (leds s)\<rparr>))
      else Inr s)"

text \<open>\<^verbatim>\<open>void timerCallback()\<close>\<close>

definition timerCallback :: "world \<Rightarrow> app \<Rightarrow> fault + app" where
  "timerCallback w s =
     thenDo (openMidiOut w s) (\<lambda>s0.
       if currentReceivePort s0 < 0 \<or> currentSendPort s0 < 0
       then (let (connected, s1) = tryToConnectOsc w s0
             in Inr (if connected then s1\<lparr>heartbeat := 5\<rparr> else s1))
       else (let s1 = heartbeatStep w s0
             in forEach [0..<length (leds s1)] blinkLed s1))"

text \<open>Successive ticks, one answer of the outside world for each.\<close>

fun ticks :: "world list \<Rightarrow> app \<Rightarrow> fault + app" where
  "ticks [] s = Inr s"
| "ticks (w # ws) s = thenDo (timerCallback w s) (ticks ws)"

section \<open>Session tracker\<close>

text \<open>\<^verbatim>\<open>arg->isInt32()\<close> with \<^verbatim>\<open>arg->getInt32()\<close>, and the same for strings.\<close>

fun int32Of :: "OSCArgument \<Rightarrow> int option" where
  "int32Of (OInt32 v) = Some v"
| "int32Of _ = None"

fun stringOf :: "OSCArgument \<Rightarrow> string option" where
  "stringOf (OString v) = Some v"
| "stringOf _ = None"

text \<open>\<^verbatim>\<open>void getCurrentState(int index)\<close> and \<^verbatim>\<open>void registerAutoUpdates(bool unreg)\<close>\<close>

definition getCurrentState :: "int \<Rightarrow> app \<Rightarrow> app" where
  "getCurrentState i s =
     emit (OscSend ''/loop4r/display''
            [OString ''127.0.0.1'', OInt32 (currentReceivePort s), OString ''/display''])
       (emit (OscSend ''/loop4r/leds''
            [OString ''127.0.0.1'', OInt32 (currentReceivePort s), OString ''/led'']) s)"

definition registerAutoUpdates :: "bool \<Rightarrow> app \<Rightarrow> app" where
  "registerAutoUpdates unreg s =
     emit (OscSend (if unreg then ''/loop4r/unregister_auto_update'' else ''/loop4r/register_auto_update'')
            [OString ''127.0.0.1'', OInt32 (currentReceivePort s)]) s"

text \<open>The LED \<^verbatim>\<open>{i, false, TIMER_OFF, Dark}\<close> that every loop of the handlers adds.\<close>

definition newLed :: "int \<Rightarrow> LED" where
  "newLed i = \<lparr>index = i, on = False, timer = TIMER_OFF, state = Dark\<rparr>"

text \<open>
  The body of the loop that rebuilds the registry (lines 695 to 698 and 746 to 749), and
  the body of the loop that extends it (lines 760 to 762).
\<close>

definition addAndResync :: "int \<Rightarrow> app \<Rightarrow> app" where
  "addAndResync i s =
     updateLeds (getCurrentState i (registerAutoUpdates False (s\<lparr>leds := leds s @ [newLed i]\<rparr>)))"

definition rebuildLeds :: "app \<Rightarrow> app" where
  "rebuildLeds s = fold addAndResync [0..ledCount s - 1] (s\<lparr>leds := []\<rparr>)"

definition registerAndAdd :: "int \<Rightarrow> app \<Rightarrow> app" where
  "registerAndAdd i s =
     updateLeds ((registerAutoUpdates False s)\<lparr>leds := leds s @ [newLed i]\<rparr>)"

text \<open>
  The argument loop of \<^verbatim>\<open>handlePingAckMessage\<close>, from the argument numbered \<open>i\<close> on.
  The result is \<open>False\<close> when the loop left the handler through its \<^verbatim>\<open>default\<close> case.
\<close>

fun pingAckArgs :: "nat \<Rightarrow> OSCArgument list \<Rightarrow> app \<Rightarrow> bool \<times> app" where
  "pingAckArgs i [] s = (True, s)"
| "pingAckArgs i (a # as) s =
     (if i = 0 then pingAckArgs (Suc i) as (case stringOf a of Some v \<Rightarrow> s\<lparr>hostUrl := v\<rparr> | None \<Rightarrow> s)
      else if i = 1 then pingAckArgs (Suc i) as (case stringOf a of Some v \<Rightarrow> s\<lparr>version := v\<rparr> | None \<Rightarrow> s)
      else if i = 2 then pingAckArgs (Suc i) as (case int32Of a of Some v \<Rightarrow> s\<lparr>ledCount := v\<rparr> | None \<Rightarrow> s)
      else if i = 3 then pingAckArgs (Suc i) as (case int32Of a of Some v \<Rightarrow> s\<lparr>engineId := v\<rparr> | None \<Rightarrow> s)
      else (False, s))"

text \<open>\<^verbatim>\<open>void handlePingAckMessage(const OSCMessage& message)\<close>\<close>

definition handlePingAckMessage :: "OSCArgument list \<Rightarrow> app \<Rightarrow> app" where
  "handlePingAckMessage message s =
     (if message = [] then s
      else (let (completed, s1) = pingAckArgs 0 message s in
            if \<not> completed then s1
            else (let s2 = (if ledCount s1 > 0 then rebuildLeds s1 else s1)
                  in s2\<lparr>heartbeat := 5\<rparr>)))"

text \<open>
  The argument loop of \<^verbatim>\<open>handleHeartbeatMessage\<close>: it carries the state and the locals
  \<^verbatim>\<open>numleds\<close> and \<^verbatim>\<open>uid\<close>; its \<^verbatim>\<open>default\<close> case only reports.
\<close>

fun heartbeatArgs :: "nat \<Rightarrow> OSCArgument list \<Rightarrow> app \<times> int \<times> int \<Rightarrow> app \<times> int \<times> int" where
  "heartbeatArgs i [] r = r"
| "heartbeatArgs i (a # as) (s, numleds, uid) =
     heartbeatArgs (Suc i) as
       (if i = 0 then ((case stringOf a of Some v \<Rightarrow> s\<lparr>hostUrl := v\<rparr> | None \<Rightarrow> s), numleds, uid)
        else if i = 1 then ((case stringOf a of Some v \<Rightarrow> s\<lparr>version := v\<rparr> | None \<Rightarrow> s), numleds, uid)
        else if i = 2 then (s, (case int32Of a of Some v \<Rightarrow> v | None \<Rightarrow> numleds), uid)
        else if i = 3 then (s, numleds, (case int32Of a of Some v \<Rightarrow> v | None \<Rightarrow> uid))
        else (s, numleds, uid))"

text \<open>\<^verbatim>\<open>void handleHeartbeatMessage(const OSCMessage& message)\<close>\<close>

definition handleHeartbeatMessage :: "OSCArgument list \<Rightarrow> app \<Rightarrow> app" where
  "handleHeartbeatMessage message s =
     (if message = [] then s
      else (let (s1, numleds, uid) = heartbeatArgs 0 message (s, 0, engineId s);
                s2 = (if uid \<noteq> engineId s1
                      then (if numleds > 0 then rebuildLeds (s1\<lparr>ledCount := numleds\<rparr>) else s1)
                      else (if ledCount s1 \<noteq> numleds
                            then (fold registerAndAdd [ledCount s1..numleds - 1] s1)\<lparr>ledCount := numleds\<rparr>
                            else s1));
                s3 = emit (MidiWrite (if heartbeatOn s2 then 107 else 106) 23) s2
            in s3\<lparr>heartbeatOn := \<not> heartbeatOn s3, heartbeat := 5\<rparr>))"

text \<open>
  \<^verbatim>\<open>static_cast<LedStates>(arg->getInt32())\<close>: the enumerators are 0 to 3.
\<close>

definition ledStateOf :: "int \<Rightarrow> LedStates option" where
  "ledStateOf v =
     (if v = 0 then Some Dark else if v = 1 then Some Light
      else if v = 2 then Some Blink else if v = 3 then Some FastBlink else None)"

definition setState :: "int \<Rightarrow> LedStates \<Rightarrow> LED list \<Rightarrow> LED list" where
  "setState i st xs = xs[nat i := (xs ! nat i)\<lparr>state := st\<rparr>]"

text \<open>
  \<^verbatim>\<open>void handleLedMessage(const OSCMessage& message)\<close>. The fields of the LED are written
  one by one, each as soon as its argument has been found to be an int32.
\<close>

definition handleLedMessage :: "OSCArgument list \<Rightarrow> app \<Rightarrow> fault + app" where
  "handleLedMessage message s =
     (case message of
        [] \<Rightarrow> Inr s
      | a0 # rest0 \<Rightarrow>
         (case int32Of a0 of
            None \<Rightarrow> Inr s
          | Some ledIndex \<Rightarrow>
             if ledIndex < 0 \<or> ledIndex \<ge> ledCount s then Inr s
             else if \<not> inRange ledIndex (leds s) then Inl (ArrayIndexOutOfRange ledIndex)
             else
              (case rest0 of
                 [] \<Rightarrow> Inl ArgumentPastEnd
               | a1 # rest1 \<Rightarrow>
                  (case int32Of a1 of
                     None \<Rightarrow> Inr s
                   | Some v1 \<Rightarrow>
                      let s1 = s\<lparr>leds := setOn ledIndex (v1 \<noteq> 0) (leds s)\<rparr> in
                      (case rest1 of
                         [] \<Rightarrow> Inl ArgumentPastEnd
                       | a2 # rest2 \<Rightarrow>
                          (case int32Of a2 of
                             None \<Rightarrow> Inr s1
                           | Some v2 \<Rightarrow>
                              let s2 = s1\<lparr>leds := setTimer (nat ledIndex) v2 (leds s1)\<rparr> in
                              (case rest2 of
                                 [] \<Rightarrow> Inl ArgumentPastEnd
                               | a3 # rest3 \<Rightarrow>
                                  (case int32Of a3 of
                                     None \<Rightarrow> Inr s2
                                   | Some v3 \<Rightarrow>
                                      (case ledStateOf v3 of
                                         None \<Rightarrow> Inl (EnumOutOfRange v3)
                                       | Some st \<Rightarrow>
                                          let s3 = s2\<lparr>leds := setState ledIndex st (leds s2)\<rparr> in
                                          Inr ((updateLedState (leds s3 ! nat ledIndex) s3)
                                                 \<lparr>heartbeat := 5\<rparr>))))))))))"

text \<open>
  \<^verbatim>\<open>void handleDisplayMessage(const OSCMessage& message)\<close>. \<^verbatim>\<open>selectedLoop\<close> is a 32-bit
  \<^verbatim>\<open>int\<close>, so adding one to the largest value overflows; the quotient and the remainder
  of C++ round towards zero.
\<close>

definition truncDiv :: "int \<Rightarrow> int \<Rightarrow> int" where
  "truncDiv a b = sgn a * sgn b * (\<bar>a\<bar> div \<bar>b\<bar>)"

definition truncMod :: "int \<Rightarrow> int \<Rightarrow> int" where
  "truncMod a b = sgn a * (\<bar>a\<bar> mod \<bar>b\<bar>)"

definition handleDisplayMessage :: "OSCArgument list \<Rightarrow> app \<Rightarrow> fault + app" where
  "handleDisplayMessage message s =
     (case message of
        [] \<Rightarrow> Inr s
      | a0 # rest0 \<Rightarrow>
         (case int32Of a0 of
            None \<Rightarrow> Inr s
          | Some v \<Rightarrow>
             if v + 1 > 2147483647 then Inl SignedOverflow
             else (let selectedLoop = v + 1;
                       s1 = (if truncDiv selectedLoop 10 > 0
                             then emit (MidiWrite 113 (word_of_int (truncDiv selectedLoop 10))) s
                             else emit (MidiWrite 113 0) s)
                   in Inr (emit (MidiWrite 114 (word_of_int (truncMod selectedLoop 10))) s1))))"

text \<open>
  \<^verbatim>\<open>void oscMessageReceived(const OSCMessage& message)\<close>: the handler is chosen by the
  start of the address pattern, in this order. What it prints is not modelled.
\<close>

definition startsWith :: "string \<Rightarrow> string \<Rightarrow> bool" where
  "startsWith a p = (take (length p) a = p)"

definition oscMessageReceived :: "string \<Rightarrow> OSCArgument list \<Rightarrow> app \<Rightarrow> fault + app" where
  "oscMessageReceived address message s =
     (if startsWith address ''/pingack'' then Inr (handlePingAckMessage message s)
      else if startsWith address ''/led'' then handleLedMessage message s
      else if startsWith address ''/display'' then handleDisplayMessage message s
      else if startsWith address ''/heartbeat'' then Inr (handleHeartbeatMessage message s)
      else Inr s)"

section \<open>Vocabulary of the statements\<close>

text \<open>
  The link is up when neither port is negative: the test that opens \<^verbatim>\<open>timerCallback\<close>'s
  second half, negated.
\<close>

definition linked :: "app \<Rightarrow> bool" where
  "linked s = (\<not> (currentReceivePort s < 0 \<or> currentSendPort s < 0))"

text \<open>
  Every LED of the registry carries its own position as \<open>index\<close>, as in the registries
  the constructor and \<open>rebuildLeds\<close> build.
\<close>

definition indexed :: "LED list \<Rightarrow> bool" where
  "indexed xs = (map index xs = map int [0..<length xs])"

text \<open>The output device needs no opening: it has no name, or it has a handle.\<close>

definition deviceSettled :: "app \<Rightarrow> bool" where
  "deviceSettled s = (midiOutName s = [] \<or> midiOut s)"

definition blinking :: "LED \<Rightarrow> bool" where
  "blinking led = (state led = Blink \<or> state led = FastBlink)"

text \<open>
  One pass of the loop body of lines 230 to 247 over an LED whose \<open>index\<close> is its own
  position, as a function of that LED, and the frames the pass writes
  (\<open>blink_loop_indexed\<close> below proves that the loop does this).
\<close>

definition blinked :: "LED \<Rightarrow> LED" where
  "blinked led =
     (if blinking led
      then (if timer led \<le> 0
            then led\<lparr>on := \<not> on led,
                     timer := (if state led = Blink then TIMER_BLINK else TIMER_FASTBLINK)\<rparr>
            else led\<lparr>timer := timer led - 1\<rparr>)
      else led)"

definition blinkWrites :: "LED \<Rightarrow> event list" where
  "blinkWrites led =
     (if blinking led \<and> timer led \<le> 0
      then [MidiWrite (if on led then 107 else 106) (ledNumber (index led))]
      else [])"

text \<open>
  The steady condition under which every tick runs the countdown and the blink loop and
  cannot fault: the link is up, the countdown has not gone below zero, the registry is
  indexed and the device needs no opening.
\<close>

definition steady :: "app \<Rightarrow> bool" where
  "steady s = (linked s \<and> 0 \<le> heartbeat s \<and> indexed (leds s) \<and> deviceSettled s)"

text \<open>The probe that line 209 sends when the countdown is at zero.\<close>

definition heartbeatProbe :: "app \<Rightarrow> event" where
  "heartbeatProbe s =
     OscSend ''/loop4r/ping'' [OString ''127.0.0.1'', OInt32 (currentReceivePort s), OString ''/heartbeat'']"

text \<open>The \<open>on\<close> field of the LED at position \<open>k\<close> of a result, when there is one.\<close>

definition onAt :: "nat \<Rightarrow> fault + app \<Rightarrow> bool option" where
  "onAt k r = (case r of Inl e \<Rightarrow> None | Inr s \<Rightarrow> Some (on (leds s ! k)))"

text \<open>The frame that \<open>updateLedState\<close> writes for an LED.\<close>

definition ledFrame :: "LED \<Rightarrow> event" where
  "ledFrame led = MidiWrite (if on led then 106 else 107) (ledNumber (index led))"

text \<open>
  The tick opens the output device: it has a name and no handle, and
  \<^verbatim>\<open>snd_rawmidi_open\<close> succeeds.
\<close>

definition opensDevice :: "world \<Rightarrow> app \<Rightarrow> bool" where
  "opensDevice w s = (midiOutName s \<noteq> [] \<and> \<not> midiOut s \<and> midiOpens w)"

fun isMidiWrite :: "event \<Rightarrow> bool" where
  "isMidiWrite (MidiWrite cc v) = True"
| "isMidiWrite (OscSend a args) = False"

text \<open>
  A state for the examples: the ten LEDs and the ports of the constructor, the link up and
  the countdown at 5 as after a first successful connect, no output device named. The
  members the constructor leaves without a value get one here.
\<close>

definition connectedApp :: app where
  "connectedApp =
     \<lparr>currentReceivePort = 9001, currentSendPort = 9000, oscSendPort = 9000,
      oscReceivePort = 9001, engineId = 1, leds = map newLed [0..9], midiOutName = [],
      midiOut = False, ledCount = 10, pinged = False, hostUrl = [], version = [],
      heartbeat = 5, heartbeatOn = False, out = []\<rparr>"

text \<open>
  The same state with LED 3 in \<open>Blink\<close> and LED 4 in \<open>FastBlink\<close>, each as the loop leaves
  it right after a toggle, and LED 5 in \<open>Light\<close>.
\<close>

definition animatedApp :: app where
  "animatedApp =
     connectedApp\<lparr>leds := (leds connectedApp)
       [3 := \<lparr>index = 3, on = True, timer = TIMER_BLINK, state = Blink\<rparr>,
        4 := \<lparr>index = 4, on = False, timer = TIMER_FASTBLINK, state = FastBlink\<rparr>,
        5 := \<lparr>index = 5, on = True, timer = TIMER_OFF, state = Light\<rparr>]\<rparr>"

text \<open>
  A state whose link is down: the receive port is bound, the sender has not connected yet.
  The output device has a name and no handle, the countdown stands at 2, and LED 0 is
  lit in \<open>Light\<close>. In \<open>deviceWorld\<close> the device can be opened and the sender still
  cannot connect.
\<close>

definition offlineApp :: app where
  "offlineApp =
     connectedApp\<lparr>currentSendPort := - 1, midiOutName := ''FCB1010'', heartbeat := 2,
       leds := (leds connectedApp)[0 := \<lparr>index = 0, on = True, timer = 0, state = Light\<rparr>]\<rparr>"

definition deviceWorld :: world where
  "deviceWorld = \<lparr>senderConnects = False, receiverConnects = True, midiOpens = True\<rparr>"


text \<open>The state \<open>offlineApp\<close> with a registry of three LEDs.\<close>

definition crampedApp :: app where
  "crampedApp = offlineApp\<lparr>leds := map newLed [0..2], ledCount := 3\<rparr>"

definition anyWorld :: world where
  "anyWorld = \<lparr>senderConnects = True, receiverConnects = True, midiOpens = True\<rparr>"

section \<open>Ticks of a steady state\<close>

lemma thenDo_Inr_iff: "thenDo r f = Inr y \<longleftrightarrow> (\<exists>x. r = Inr x \<and> f x = Inr y)"
  by (cases r) auto

lemma forEach_append: "forEach (xs @ ys) body s = thenDo (forEach xs body s) (forEach ys body)"
proof (induction xs arbitrary: s)
  case Nil
  show ?case by simp
next
  case (Cons x xs)
  show ?case
  proof (cases "body x s")
    case (Inl e)
    then show ?thesis by simp
  next
    case (Inr s1)
    then show ?thesis using Cons.IH [of s1] by simp
  qed
qed

lemma forEach_single: "forEach [x] body s = body x s"
  by (cases "body x s") auto

lemma indexed_nth: "indexed xs \<Longrightarrow> k < length xs \<Longrightarrow> index (xs ! k) = int k"
proof -
  assume a: "indexed xs" and k: "k < length xs"
  have "map index xs ! k = map int [0..<length xs] ! k"
    using a by (simp add: indexed_def)
  then show ?thesis using k by simp
qed

lemma index_blinked: "index (blinked led) = index led"
  by (simp add: blinked_def)

lemma state_blinked: "state (blinked led) = state led"
  by (simp add: blinked_def)

lemma indexed_map_blinked: "indexed xs \<Longrightarrow> indexed (map blinked xs)"
  by (simp add: indexed_def index_blinked comp_def)

lemma blinkLed_indexed:
  assumes "k < length (leds s)" and "index (leds s ! k) = int k"
  shows "blinkLed k s =
           Inr (s\<lparr>leds := (leds s)[k := blinked (leds s ! k)],
                  out := out s @ blinkWrites (leds s ! k)\<rparr>)"
  using assms
  by (auto simp: blinkLed_def blinked_def blinkWrites_def blinking_def ledOn_def ledOff_def
      inRange_def setOn_def setTimer_def emit_def Let_def)

lemma blink_loop_indexed:
  assumes "indexed (leds s)" and "n \<le> length (leds s)"
  shows "forEach [0..<n] blinkLed s =
           Inr (s\<lparr>leds := map blinked (take n (leds s)) @ drop n (leds s),
                  out := out s @ concat (map blinkWrites (take n (leds s)))\<rparr>)"
  using assms(2)
proof (induction n)
  case 0
  show ?case by simp
next
  case (Suc n)
  let ?xs = "leds s"
  let ?mid = "s\<lparr>leds := map blinked (take n ?xs) @ drop n ?xs,
                 out := out s @ concat (map blinkWrites (take n ?xs))\<rparr>"
  from Suc.prems have n: "n < length ?xs" by simp
  have loop: "forEach [0..<n] blinkLed s = Inr ?mid"
    using Suc.IH n by simp
  have at_n: "leds ?mid ! n = ?xs ! n"
    using n by (simp add: nth_append)
  have idx: "index (leds ?mid ! n) = int n"
    using at_n indexed_nth [OF assms(1) n] by simp
  have len: "n < length (leds ?mid)"
    using n by simp
  have upd: "(map blinked (take n ?xs) @ drop n ?xs)[n := blinked (?xs ! n)]
             = map blinked (take (Suc n) ?xs) @ drop (Suc n) ?xs"
    using n by (simp add: take_Suc_conv_app_nth list_update_append Cons_nth_drop_Suc [symmetric])
  have "forEach [0..<Suc n] blinkLed s = thenDo (forEach [0..<n] blinkLed s) (forEach [n] blinkLed)"
    by (simp add: forEach_append)
  also have "\<dots> = blinkLed n ?mid"
    using loop by (simp only: thenDo.simps forEach_single)
  also have "\<dots> = Inr (?mid\<lparr>leds := (leds ?mid)[n := blinked (leds ?mid ! n)],
                  out := out ?mid @ blinkWrites (leds ?mid ! n)\<rparr>)"
    using blinkLed_indexed [OF len idx] by simp
  finally show ?case
    using n upd at_n by (simp add: take_Suc_conv_app_nth)
qed

lemma openMidiOut_settled: "deviceSettled s \<Longrightarrow> openMidiOut w s = Inr s"
  by (auto simp: deviceSettled_def openMidiOut_def)

lemma leds_tryToConnectOsc: "leds (snd (tryToConnectOsc w s)) = leds s"
  by (simp add: tryToConnectOsc_def connect_def emit_def Let_def)

lemma leds_heartbeatStep: "leds (heartbeatStep w s) = leds s"
proof (cases "tryToConnectOsc w (s\<lparr>currentReceivePort := - 1, currentSendPort := - 1\<rparr>)")
  case (Pair connected s1)
  have "leds s1 = leds s"
    using leds_tryToConnectOsc [of w "s\<lparr>currentReceivePort := - 1, currentSendPort := - 1\<rparr>"] Pair
    by simp
  then show ?thesis
    using Pair by (simp add: heartbeatStep_def emit_def)
qed

lemma timerCallback_linked:
  assumes "linked s" and "indexed (leds s)" and "deviceSettled s"
  shows "timerCallback w s =
           Inr ((heartbeatStep w s)\<lparr>leds := map blinked (leds s),
                   out := out (heartbeatStep w s) @ concat (map blinkWrites (leds s))\<rparr>)"
proof -
  let ?s1 = "heartbeatStep w s"
  have idx: "indexed (leds ?s1)" and len: "length (leds ?s1) \<le> length (leds ?s1)"
    using assms(2) by (simp_all add: leds_heartbeatStep)
  have "timerCallback w s = forEach [0..<length (leds ?s1)] blinkLed ?s1"
    using assms(1,3) by (simp add: timerCallback_def openMidiOut_settled linked_def Let_def)
  then show ?thesis
    using blink_loop_indexed [OF idx len] by (simp add: leds_heartbeatStep)
qed

lemma heartbeatStep_alive:
  "0 \<le> heartbeat s \<Longrightarrow>
     heartbeatStep w s =
       (if heartbeat s = 0 then emit (heartbeatProbe s) s else s\<lparr>heartbeat := heartbeat s - 1\<rparr>)"
  by (simp add: heartbeatStep_def heartbeatProbe_def)


lemma tick_steady:
  assumes "steady s"
  shows "timerCallback w s =
           Inr (s\<lparr>leds := map blinked (leds s),
                  heartbeat := max 0 (heartbeat s - 1),
                  out := out s @ (if heartbeat s = 0 then [heartbeatProbe s] else [])
                           @ concat (map blinkWrites (leds s))\<rparr>)"
proof -
  from assms have l: "linked s" and h: "0 \<le> heartbeat s" and i: "indexed (leds s)"
    and d: "deviceSettled s"
    by (simp_all add: steady_def)
  show ?thesis
    using h by (simp add: timerCallback_linked [OF l i d] heartbeatStep_alive emit_def)
qed

lemma steady_after_tick:
  assumes "steady s"
  shows "steady (s\<lparr>leds := map blinked (leds s), heartbeat := max 0 (heartbeat s - 1), out := evs\<rparr>)"
  using assms by (simp add: steady_def linked_def deviceSettled_def indexed_map_blinked)

lemma ticks_append: "ticks (ws @ vs) s = thenDo (ticks ws s) (ticks vs)"
proof (induction ws arbitrary: s)
  case Nil
  show ?case by simp
next
  case (Cons w ws)
  show ?case
  proof (cases "timerCallback w s")
    case (Inl e)
    then show ?thesis by simp
  next
    case (Inr s1)
    then show ?thesis using Cons.IH [of s1] by simp
  qed
qed

lemma ticks_single: "ticks [w] s = timerCallback w s"
  by (cases "timerCallback w s") auto

lemma ticks_steady:
  assumes "steady s"
  shows "\<exists>s'. ticks ws s = Inr s' \<and> steady s'
           \<and> leds s' = map (blinked ^^ length ws) (leds s)
           \<and> heartbeat s' = max 0 (heartbeat s - int (length ws))
           \<and> currentReceivePort s' = currentReceivePort s
           \<and> currentSendPort s' = currentSendPort s
           \<and> ledCount s' = ledCount s
           \<and> count_list (out s') (heartbeatProbe s)
               = count_list (out s) (heartbeatProbe s) + (length ws - nat (heartbeat s))"
proof (induction ws rule: rev_induct)
  case Nil
  show ?case using assms by (simp add: steady_def)
next
  case (snoc w ws)
  then obtain s1 where run: "ticks ws s = Inr s1" and st: "steady s1"
    and l: "leds s1 = map (blinked ^^ length ws) (leds s)"
    and h: "heartbeat s1 = max 0 (heartbeat s - int (length ws))"
    and r: "currentReceivePort s1 = currentReceivePort s"
    and p: "currentSendPort s1 = currentSendPort s"
    and c: "ledCount s1 = ledCount s"
    and n: "count_list (out s1) (heartbeatProbe s)
             = count_list (out s) (heartbeatProbe s) + (length ws - nat (heartbeat s))"
    by blast
  let ?evs = "out s1 @ (if heartbeat s1 = 0 then [heartbeatProbe s1] else [])
                @ concat (map blinkWrites (leds s1))"
  let ?s2 = "s1\<lparr>leds := map blinked (leds s1), heartbeat := max 0 (heartbeat s1 - 1), out := ?evs\<rparr>"
  have step: "ticks (ws @ [w]) s = Inr ?s2"
    using run tick_steady [OF st, of w] by (simp add: ticks_append ticks_single)
  have probe: "heartbeatProbe s1 = heartbeatProbe s"
    using r by (simp add: heartbeatProbe_def)
  have nowrite: "count_list (concat (map blinkWrites xs)) (heartbeatProbe s) = 0" for xs
    by (induction xs) (simp_all add: blinkWrites_def heartbeatProbe_def)
  have hs: "0 \<le> heartbeat s"
    using assms by (simp add: steady_def)
  have cnt: "count_list ?evs (heartbeatProbe s)
               = count_list (out s) (heartbeatProbe s) + (length (ws @ [w]) - nat (heartbeat s))"
    using n h hs by (auto simp: probe nowrite)
  show ?case
    using step steady_after_tick [OF st, of ?evs] l h r p c cnt
    by (intro exI [of _ ?s2]) (simp add: comp_def)
qed


lemma steady_connectedApp: "steady connectedApp"
  by code_simp

lemma steady_animatedApp: "steady animatedApp"
  by code_simp


section \<open>The liveness countdown\<close>

text \<open>
  C1. What the code does from a fresh connect (link up, countdown 5) when no message
  arrives, for any number of ticks and any answers of the outside world: the countdown is
  \<open>5 - n\<close> for the first five ticks and then stays at 0, because the branch that sends
  the probe at 0 does not decrement; so it never becomes negative, both ports stay bound
  for ever, and every tick after the fifth sends one probe.
\<close>

theorem countdown_stalls_at_zero:
  assumes "linked s" and "heartbeat s = 5" and "indexed (leds s)" and "deviceSettled s"
  shows "\<exists>s'. ticks ws s = Inr s'
           \<and> heartbeat s' = max 0 (5 - int (length ws))
           \<and> linked s'
           \<and> currentReceivePort s' = currentReceivePort s
           \<and> currentSendPort s' = currentSendPort s
           \<and> count_list (out s') (heartbeatProbe s)
               = count_list (out s) (heartbeatProbe s) + (length ws - 5)"
proof -
  have st: "steady s"
    using assms by (simp add: steady_def)
  from ticks_steady [OF st, of ws] obtain s' where "ticks ws s = Inr s'" and "steady s'"
    and "heartbeat s' = max 0 (heartbeat s - int (length ws))"
    and "currentReceivePort s' = currentReceivePort s"
    and "currentSendPort s' = currentSendPort s"
    and "count_list (out s') (heartbeatProbe s)
          = count_list (out s) (heartbeatProbe s) + (length ws - nat (heartbeat s))"
    by blast
  then show ?thesis
    using assms(2) by (intro exI [of _ s']) (simp add: steady_def)
qed

theorem countdown_stalls_at_zero_witness:
  "linked connectedApp \<and> heartbeat connectedApp = 5 \<and> indexed (leds connectedApp)
   \<and> deviceSettled connectedApp
   \<and> (\<exists>s'. ticks (replicate 12 anyWorld) connectedApp = Inr s'
          \<and> heartbeat s' = 0 \<and> linked s'
          \<and> currentReceivePort s' = 9001 \<and> currentSendPort s' = 9000
          \<and> count_list (out s') (heartbeatProbe connectedApp) = 7)"
proof -
  have a: "linked connectedApp" and b: "heartbeat connectedApp = 5"
    and c: "indexed (leds connectedApp)" and d: "deviceSettled connectedApp"
    using steady_connectedApp by (simp_all add: steady_def connectedApp_def)
  have ports: "currentReceivePort connectedApp = 9001" "currentSendPort connectedApp = 9000"
    "out connectedApp = []"
    by (simp_all add: connectedApp_def)
  show ?thesis
    using a b c d countdown_stalls_at_zero [OF a b c d, of "replicate 12 anyWorld"]
    by (simp add: ports)
qed


section \<open>Blink animation\<close>

lemma blinked_pow_idle: "\<not> blinking led \<Longrightarrow> (blinked ^^ n) led = led"
  by (induction n) (simp_all add: blinked_def)

lemma blink_cycle:
  assumes "state led = Blink" and "timer led = TIMER_BLINK"
  shows "(blinked ^^ n) led
           = led\<lparr>on := (on led \<noteq> odd (n div 4)), timer := 3 - int (n mod 4)\<rparr>"
proof (induction n)
  case 0
  show ?case using assms by (simp add: TIMER_BLINK_def)
next
  case (Suc n)
  have m: "n mod 4 = 0 \<or> n mod 4 = 1 \<or> n mod 4 = 2 \<or> n mod 4 = 3"
    by arith
  show ?case
    using m assms Suc
    by (elim disjE)
      (simp_all add: blinked_def blinking_def TIMER_BLINK_def mod_Suc div_Suc)
qed

lemma fast_cycle:
  assumes "state led = FastBlink" and "timer led = TIMER_FASTBLINK"
  shows "(blinked ^^ n) led
           = led\<lparr>on := (on led \<noteq> odd (n div 2)), timer := 1 - int (n mod 2)\<rparr>"
proof (induction n)
  case 0
  show ?case using assms by (simp add: TIMER_FASTBLINK_def)
next
  case (Suc n)
  have m: "n mod 2 = 0 \<or> n mod 2 = 1"
    by arith
  show ?case
    using m assms Suc
    by (elim disjE)
      (simp_all add: blinked_def blinking_def TIMER_FASTBLINK_def mod_Suc div_Suc)
qed


text \<open>
  C4, as the code has it. In a steady state and with no message in between, after any
  number \<open>n\<close> of ticks: a \<open>Blink\<close> LED that has just been toggled (timer reloaded to 3) has
  been toggled \<open>n div 4\<close> times more and its timer stands at \<open>3 - n mod 4\<close>, so it toggles
  exactly every 4 ticks; a \<open>FastBlink\<close> LED that has just been toggled (timer 1) toggles
  exactly every 2 ticks; a \<open>Dark\<close> or \<open>Light\<close> LED is left as it is.
\<close>

theorem blink_periods:
  assumes "steady s" and "k < length (leds s)"
  shows "\<exists>s'. ticks ws s = Inr s' \<and> length (leds s') = length (leds s)
           \<and> (state (leds s ! k) = Blink \<and> timer (leds s ! k) = TIMER_BLINK \<longrightarrow>
                leds s' ! k = (leds s ! k)\<lparr>on := (on (leds s ! k) \<noteq> odd (length ws div 4)),
                                          timer := 3 - int (length ws mod 4)\<rparr>)
           \<and> (state (leds s ! k) = FastBlink \<and> timer (leds s ! k) = TIMER_FASTBLINK \<longrightarrow>
                leds s' ! k = (leds s ! k)\<lparr>on := (on (leds s ! k) \<noteq> odd (length ws div 2)),
                                          timer := 1 - int (length ws mod 2)\<rparr>)
           \<and> (state (leds s ! k) = Dark \<or> state (leds s ! k) = Light \<longrightarrow>
                leds s' ! k = leds s ! k)"
proof -
  from ticks_steady [OF assms(1), of ws] obtain s' where run: "ticks ws s = Inr s'"
    and l: "leds s' = map (blinked ^^ length ws) (leds s)"
    by blast
  have at_k: "leds s' ! k = (blinked ^^ length ws) (leds s ! k)"
    using l assms(2) by simp
  have idle: "state (leds s ! k) = Dark \<or> state (leds s ! k) = Light \<Longrightarrow> leds s' ! k = leds s ! k"
    using at_k by (auto simp: blinked_pow_idle blinking_def)
  show ?thesis
    using run l at_k idle by (intro exI [of _ s']) (auto simp: blink_cycle fast_cycle)
qed


theorem blink_periods_witness:
  "steady animatedApp
   \<and> (\<exists>s'. ticks (replicate 4 anyWorld) animatedApp = Inr s'
          \<and> leds s' ! 3 = \<lparr>index = 3, on = False, timer = 3, state = Blink\<rparr>
          \<and> leds s' ! 4 = \<lparr>index = 4, on = False, timer = 1, state = FastBlink\<rparr>
          \<and> leds s' ! 5 = \<lparr>index = 5, on = True, timer = 0, state = Light\<rparr>)"
proof -
  have l3: "leds animatedApp ! 3 = \<lparr>index = 3, on = True, timer = TIMER_BLINK, state = Blink\<rparr>"
    and l4: "leds animatedApp ! 4 = \<lparr>index = 4, on = False, timer = TIMER_FASTBLINK, state = FastBlink\<rparr>"
    and l5: "leds animatedApp ! 5 = \<lparr>index = 5, on = True, timer = TIMER_OFF, state = Light\<rparr>"
    and len: "length (leds animatedApp) = 10"
    by (simp_all add: animatedApp_def connectedApp_def)
  have k3: "3 < length (leds animatedApp)" and k4: "4 < length (leds animatedApp)"
    and k5: "5 < length (leds animatedApp)"
    by (simp_all add: len)
  show ?thesis
    using blink_periods [OF steady_animatedApp k3, of "replicate 4 anyWorld"]
      blink_periods [OF steady_animatedApp k4, of "replicate 4 anyWorld"]
      blink_periods [OF steady_animatedApp k5, of "replicate 4 anyWorld"]
    by (auto simp: steady_animatedApp l3 l4 l5 TIMER_BLINK_def TIMER_FASTBLINK_def TIMER_OFF_def)
qed

text \<open>
  C4 as the specification words it fails. LED 3 is put into \<open>Blink\<close>, lit, with timer 0:
  the first tick switches it off, the fourth tick finds it still off, the fifth switches
  it on, four ticks after the first toggle and not three. LED 4 is put into \<open>FastBlink\<close>
  the same way: it is toggled by the first and the third tick and not by the second.
\<close>

theorem blink_period_counterexample:
  "onAt 3 (handleLedMessage [OInt32 3, OInt32 1, OInt32 0, OInt32 2] connectedApp) = Some True
   \<and> onAt 3 (thenDo (handleLedMessage [OInt32 3, OInt32 1, OInt32 0, OInt32 2] connectedApp)
               (ticks (replicate 1 anyWorld))) = Some False
   \<and> onAt 3 (thenDo (handleLedMessage [OInt32 3, OInt32 1, OInt32 0, OInt32 2] connectedApp)
               (ticks (replicate 4 anyWorld))) = Some False
   \<and> onAt 3 (thenDo (handleLedMessage [OInt32 3, OInt32 1, OInt32 0, OInt32 2] connectedApp)
               (ticks (replicate 5 anyWorld))) = Some True
   \<and> onAt 4 (handleLedMessage [OInt32 4, OInt32 1, OInt32 0, OInt32 3] connectedApp) = Some True
   \<and> onAt 4 (thenDo (handleLedMessage [OInt32 4, OInt32 1, OInt32 0, OInt32 3] connectedApp)
               (ticks (replicate 1 anyWorld))) = Some False
   \<and> onAt 4 (thenDo (handleLedMessage [OInt32 4, OInt32 1, OInt32 0, OInt32 3] connectedApp)
               (ticks (replicate 2 anyWorld))) = Some False
   \<and> onAt 4 (thenDo (handleLedMessage [OInt32 4, OInt32 1, OInt32 0, OInt32 3] connectedApp)
               (ticks (replicate 3 anyWorld))) = Some True"
  by code_simp

section \<open>Heartbeats and the registry\<close>

lemma fold_updateLedState:
  "fold updateLedState xs s = s\<lparr>out := out s @ map ledFrame xs\<rparr>"
  by (induction xs arbitrary: s) (simp_all add: updateLedState_def emit_def ledFrame_def)

lemma updateLeds_writes: "updateLeds s = s\<lparr>out := out s @ map ledFrame (leds s)\<rparr>"
  by (simp add: updateLeds_def fold_updateLedState)

lemma addAndResync_frame:
  "\<exists>evs. addAndResync i s = s\<lparr>leds := leds s @ [newLed i], out := out s @ evs\<rparr>"
  by (rule exI [of _ "out (addAndResync i (s\<lparr>out := []\<rparr>))"])
    (simp add: addAndResync_def updateLeds_writes getCurrentState_def registerAutoUpdates_def emit_def)

lemma fold_addAndResync:
  "\<exists>evs. fold addAndResync is s = s\<lparr>leds := leds s @ map newLed is, out := out s @ evs\<rparr>"
proof (induction "is" arbitrary: s)
  case Nil
  show ?case by (rule exI [of _ "[]"]) simp
next
  case (Cons i "is")
  obtain e1 where a: "addAndResync i s = s\<lparr>leds := leds s @ [newLed i], out := out s @ e1\<rparr>"
    using addAndResync_frame by blast
  obtain e2 where b: "fold addAndResync is (addAndResync i s)
      = (addAndResync i s)\<lparr>leds := leds (addAndResync i s) @ map newLed is,
                            out := out (addAndResync i s) @ e2\<rparr>"
    using Cons.IH by blast
  show ?case
    by (rule exI [of _ "e1 @ e2"]) (simp add: b, simp add: a)
qed

lemma rebuildLeds_frame:
  "\<exists>evs. rebuildLeds s = s\<lparr>leds := map newLed [0..ledCount s - 1], out := out s @ evs\<rparr>"
proof -
  obtain evs where "fold addAndResync [0..ledCount s - 1] (s\<lparr>leds := []\<rparr>)
      = (s\<lparr>leds := []\<rparr>)\<lparr>leds := leds (s\<lparr>leds := []\<rparr>) @ map newLed [0..ledCount s - 1],
                          out := out (s\<lparr>leds := []\<rparr>) @ evs\<rparr>"
    using fold_addAndResync by blast
  then show ?thesis
    by (intro exI [of _ evs]) (simp add: rebuildLeds_def)
qed

lemma registerAndAdd_frame:
  "\<exists>evs. registerAndAdd i s = s\<lparr>leds := leds s @ [newLed i], out := out s @ evs\<rparr>"
  by (rule exI [of _ "out (registerAndAdd i (s\<lparr>out := []\<rparr>))"])
    (simp add: registerAndAdd_def updateLeds_writes registerAutoUpdates_def emit_def)

lemma fold_registerAndAdd:
  "\<exists>evs. fold registerAndAdd is s = s\<lparr>leds := leds s @ map newLed is, out := out s @ evs\<rparr>"
proof (induction "is" arbitrary: s)
  case Nil
  show ?case by (rule exI [of _ "[]"]) simp
next
  case (Cons i "is")
  obtain e1 where a: "registerAndAdd i s = s\<lparr>leds := leds s @ [newLed i], out := out s @ e1\<rparr>"
    using registerAndAdd_frame by blast
  obtain e2 where b: "fold registerAndAdd is (registerAndAdd i s)
      = (registerAndAdd i s)\<lparr>leds := leds (registerAndAdd i s) @ map newLed is,
                            out := out (registerAndAdd i s) @ e2\<rparr>"
    using Cons.IH by blast
  show ?case
    by (rule exI [of _ "e1 @ e2"]) (simp add: b, simp add: a)
qed

lemma heartbeatArgs_four:
  "heartbeatArgs 0 [OString h, OString v, OInt32 n, OInt32 uid] (s, 0, engineId s)
     = (s\<lparr>hostUrl := h, version := v\<rparr>, n, uid)"
  by simp

lemma pingAckArgs_four:
  "pingAckArgs 0 [OString h, OString v, OInt32 n, OInt32 uid] s
     = (True, s\<lparr>hostUrl := h, version := v, ledCount := n, engineId := uid\<rparr>)"
  by simp

text \<open>The heartbeat of an unchanged engine, as a function of the reported count.\<close>

lemma heartbeat_same_engine:
  assumes "uid = engineId s"
  shows "\<exists>evs. handleHeartbeatMessage [OString h, OString v, OInt32 n, OInt32 uid] s
           = s\<lparr>hostUrl := h, version := v,
                 leds := leds s @ map newLed [ledCount s..n - 1],
                 ledCount := n,
                 heartbeatOn := \<not> heartbeatOn s,
                 heartbeat := 5,
                 out := out s @ evs\<rparr>"
proof -
  let ?s1 = "s\<lparr>hostUrl := h, version := v\<rparr>"
  obtain e1 where f: "fold registerAndAdd [ledCount s..n - 1] ?s1
      = ?s1\<lparr>leds := leds ?s1 @ map newLed [ledCount s..n - 1], out := out ?s1 @ e1\<rparr>"
    using fold_registerAndAdd by blast
  show ?thesis
  proof (cases "ledCount s = n")
    case True
    then show ?thesis
      using assms
      by (intro exI [of _ "[MidiWrite (if heartbeatOn s then 107 else 106) 23]"])
        (simp add: handleHeartbeatMessage_def heartbeatArgs_four emit_def del: heartbeatArgs.simps)
  next
    case False
    then show ?thesis
      using assms
      by (intro exI [of _ "e1 @ [MidiWrite (if heartbeatOn s then 107 else 106) 23]"])
        (simp add: handleHeartbeatMessage_def heartbeatArgs_four emit_def f del: heartbeatArgs.simps)
  qed
qed


lemma engineId_heartbeat_same:
  "engineId (handleHeartbeatMessage [OString h, OString v, OInt32 k, OInt32 (engineId s)] s) = engineId s"
proof -
  obtain evs where "handleHeartbeatMessage [OString h, OString v, OInt32 k, OInt32 (engineId s)] s
      = s\<lparr>hostUrl := h, version := v, leds := leds s @ map newLed [ledCount s..k - 1],
           ledCount := k, heartbeatOn := \<not> heartbeatOn s, heartbeat := 5, out := out s @ evs\<rparr>"
    using heartbeat_same_engine [OF refl] by blast
  then show ?thesis by simp
qed

lemma heartbeat_other_engine:
  assumes "uid \<noteq> engineId s" and "0 < k"
  shows "\<exists>evs. handleHeartbeatMessage [OString h, OString v, OInt32 k, OInt32 uid] s
           = s\<lparr>hostUrl := h, version := v,
                 leds := map newLed [0..k - 1],
                 ledCount := k,
                 heartbeatOn := \<not> heartbeatOn s,
                 heartbeat := 5,
                 out := out s @ evs\<rparr>"
proof -
  let ?s1 = "s\<lparr>hostUrl := h, version := v, ledCount := k\<rparr>"
  obtain e1 where f: "rebuildLeds ?s1
      = ?s1\<lparr>leds := map newLed [0..ledCount ?s1 - 1], out := out ?s1 @ e1\<rparr>"
    using rebuildLeds_frame by blast
  show ?thesis
    using assms
    by (intro exI [of _ "e1 @ [MidiWrite (if heartbeatOn s then 107 else 106) 23]"])
      (simp add: handleHeartbeatMessage_def heartbeatArgs_four emit_def f del: heartbeatArgs.simps)
qed

lemma pingAck_rebuilds:
  assumes "0 < k"
  shows "\<exists>evs. handlePingAckMessage [OString h, OString v, OInt32 k, OInt32 uid] s
           = s\<lparr>hostUrl := h, version := v,
                 engineId := uid,
                 leds := map newLed [0..k - 1],
                 ledCount := k,
                 heartbeat := 5,
                 out := out s @ evs\<rparr>"
proof -
  let ?s1 = "s\<lparr>hostUrl := h, version := v, ledCount := k, engineId := uid\<rparr>"
  obtain e1 where f: "rebuildLeds ?s1
      = ?s1\<lparr>leds := map newLed [0..ledCount ?s1 - 1], out := out ?s1 @ e1\<rparr>"
    using rebuildLeds_frame by blast
  show ?thesis
    using assms
    by (intro exI [of _ e1])
      (simp add: handlePingAckMessage_def pingAckArgs_four f del: pingAckArgs.simps)
qed

text \<open>
  C3. What the code does with the heartbeat of an engine other than the tracked one that
  reports \<open>k > 0\<close> LEDs: registry, tracked count and countdown end as after an identity
  probe response with the same fields, but \<open>engineId\<close> keeps its old value where the
  probe response records the new one. The next heartbeat of the new engine therefore
  finds a changed identity again and rebuilds the registry once more.
\<close>

theorem heartbeat_does_not_record_engine:
  assumes "uid \<noteq> engineId s" and "0 < k"
  shows "engineId (handleHeartbeatMessage [OString h, OString v, OInt32 k, OInt32 uid] s) = engineId s
         \<and> engineId (handlePingAckMessage [OString h, OString v, OInt32 k, OInt32 uid] s) = uid
         \<and> leds (handleHeartbeatMessage [OString h, OString v, OInt32 k, OInt32 uid] s)
             = leds (handlePingAckMessage [OString h, OString v, OInt32 k, OInt32 uid] s)
         \<and> ledCount (handleHeartbeatMessage [OString h, OString v, OInt32 k, OInt32 uid] s)
             = ledCount (handlePingAckMessage [OString h, OString v, OInt32 k, OInt32 uid] s)
         \<and> heartbeat (handleHeartbeatMessage [OString h, OString v, OInt32 k, OInt32 uid] s)
             = heartbeat (handlePingAckMessage [OString h, OString v, OInt32 k, OInt32 uid] s)
         \<and> leds (handleHeartbeatMessage [OString h, OString v, OInt32 k, OInt32 uid]
                  (handleHeartbeatMessage [OString h, OString v, OInt32 k, OInt32 uid] s))
             = map newLed [0..k - 1]"
proof -
  let ?m = "[OString h, OString v, OInt32 k, OInt32 uid]"
  obtain e1 where hb: "handleHeartbeatMessage ?m s
      = s\<lparr>hostUrl := h, version := v, leds := map newLed [0..k - 1], ledCount := k,
           heartbeatOn := \<not> heartbeatOn s, heartbeat := 5, out := out s @ e1\<rparr>"
    using heartbeat_other_engine [OF assms] by blast
  obtain e2 where pa: "handlePingAckMessage ?m s
      = s\<lparr>hostUrl := h, version := v, engineId := uid, leds := map newLed [0..k - 1],
           ledCount := k, heartbeat := 5, out := out s @ e2\<rparr>"
    using pingAck_rebuilds [OF assms(2)] by blast
  have again: "uid \<noteq> engineId (handleHeartbeatMessage ?m s)"
    using assms(1) by (simp add: hb)
  obtain e3 where hb2: "handleHeartbeatMessage ?m (handleHeartbeatMessage ?m s)
      = (handleHeartbeatMessage ?m s)\<lparr>hostUrl := h, version := v, leds := map newLed [0..k - 1],
           ledCount := k, heartbeatOn := \<not> heartbeatOn (handleHeartbeatMessage ?m s),
           heartbeat := 5, out := out (handleHeartbeatMessage ?m s) @ e3\<rparr>"
    using heartbeat_other_engine [OF again assms(2)] by blast
  have "leds (handleHeartbeatMessage ?m (handleHeartbeatMessage ?m s)) = map newLed [0..k - 1]"
    by (simp add: hb2)
  then show ?thesis
    by (simp add: hb pa)
qed

theorem heartbeat_does_not_record_engine_witness:
  "(2::int) \<noteq> engineId connectedApp \<and> (0::int) < 3
   \<and> engineId (handleHeartbeatMessage [OString ''h'', OString ''v'', OInt32 3, OInt32 2] connectedApp) = 1
   \<and> engineId (handlePingAckMessage [OString ''h'', OString ''v'', OInt32 3, OInt32 2] connectedApp) = 2"
proof -
  have a: "(2::int) \<noteq> engineId connectedApp" and b: "(0::int) < 3"
    and c: "engineId connectedApp = 1"
    by (simp_all add: connectedApp_def)
  show ?thesis
    using a b heartbeat_does_not_record_engine [OF a b, of "''h''" "''v''"] by (simp add: c)
qed








section \<open>The pedal mapping\<close>

lemma slot_cases:
  "0 \<le> (p::int) \<Longrightarrow> p \<le> 11 \<Longrightarrow>
     p = 0 \<or> p = 1 \<or> p = 2 \<or> p = 3 \<or> p = 4 \<or> p = 5 \<or> p = 6 \<or> p = 7 \<or> p = 8 \<or> p = 9
     \<or> p = 10 \<or> p = 11"
  by arith

lemma uint_ledNumber:
  assumes "0 \<le> p" and "p \<le> 11"
  shows "uint (ledNumber p) = (if p \<le> 8 then p + 1 else if p = 9 then 0 else p)"
  using slot_cases [OF assms] by (elim disjE) (simp_all add: ledNumber_def)

lemma pedalIndex_ledNumber:
  assumes "0 \<le> p" and "p \<le> 11"
  shows "pedalIndex (uint (ledNumber p)) = p"
  using slot_cases [OF assms]
  by (elim disjE) (simp_all add: ledNumber_def pedalIndex_def UP_def DOWN_def)

lemma ledNumber_pedalIndex:
  assumes "0 \<le> c" and "c \<le> 11"
  shows "ledNumber (pedalIndex c) = word_of_int c"
  using slot_cases [OF assms]
  by (elim disjE) (simp_all add: ledNumber_def pedalIndex_def UP_def DOWN_def)

lemma uint_ledNumber_pedalIndex:
  assumes "0 \<le> c" and "c \<le> 11"
  shows "uint (ledNumber (pedalIndex c)) = c"
  using slot_cases [OF assms]
  by (elim disjE) (simp_all add: ledNumber_def pedalIndex_def UP_def DOWN_def)

text \<open>
  C8. On the twelve slots 0 to 11 \<open>ledNumber\<close> sends 0..8 to 1..9, 9 to 0 and 10, 11 to
  themselves; it is a permutation of 0..11, and \<open>pedalIndex\<close> is its inverse there, on
  both sides.
\<close>

theorem pedal_mapping_permutation:
  "bij_betw (\<lambda>p. uint (ledNumber p)) {0..11} {0..11}
   \<and> (\<forall>p\<in>{0..11}. uint (ledNumber p) = (if p \<le> 8 then p + 1 else if p = 9 then 0 else p)
                   \<and> pedalIndex (uint (ledNumber p)) = p)
   \<and> (\<forall>c\<in>{0..11}. ledNumber (pedalIndex c) = word_of_int c
                   \<and> uint (ledNumber (pedalIndex c)) = c)"
proof (intro conjI ballI)
  show "bij_betw (\<lambda>p. uint (ledNumber p)) {0..11} {0..11}"
  proof (rule bij_betw_byWitness [where f' = pedalIndex])
    show "\<forall>a\<in>{0..11}. pedalIndex (uint (ledNumber a)) = a"
      by (simp add: pedalIndex_ledNumber)
    show "\<forall>a'\<in>{0..11}. uint (ledNumber (pedalIndex a')) = a'"
      by (simp add: uint_ledNumber_pedalIndex)
    show "(\<lambda>p. uint (ledNumber p)) ` {0..11} \<subseteq> {0..11}"
      by (auto simp: uint_ledNumber)
    show "pedalIndex ` {0..11} \<subseteq> {0..11}"
      by (auto simp: pedalIndex_def UP_def DOWN_def)
  qed
next
  fix p :: int assume "p \<in> {0..11}"
  then show "uint (ledNumber p) = (if p \<le> 8 then p + 1 else if p = 9 then 0 else p)"
    by (simp add: uint_ledNumber)
next
  fix p :: int assume "p \<in> {0..11}"
  then show "pedalIndex (uint (ledNumber p)) = p"
    by (simp add: pedalIndex_ledNumber)
next
  fix c :: int assume "c \<in> {0..11}"
  then show "ledNumber (pedalIndex c) = word_of_int c"
    by (simp add: ledNumber_pedalIndex)
next
  fix c :: int assume "c \<in> {0..11}"
  then show "uint (ledNumber (pedalIndex c)) = c"
    by (simp add: uint_ledNumber_pedalIndex)
qed

theorem pedal_mapping_permutation_witness:
  "uint (ledNumber 9) = 0 \<and> pedalIndex (uint (ledNumber 9)) = 9
   \<and> ledNumber (pedalIndex 0) = 0 \<and> uint (ledNumber 4) = 5 \<and> uint (ledNumber 11) = 11"
proof -
  note slots = pedal_mapping_permutation [THEN conjunct2, THEN conjunct1, THEN bspec]
  note inverse = pedal_mapping_permutation [THEN conjunct2, THEN conjunct2, THEN bspec]
  have "uint (ledNumber 9) = 0" and "pedalIndex (uint (ledNumber 9)) = 9"
    using slots [of 9] by auto
  moreover have "ledNumber (pedalIndex 0) = 0"
    using inverse [of 0] by simp
  moreover have "uint (ledNumber 4) = 5"
    using slots [of 4] by simp
  moreover have "uint (ledNumber 11) = 11"
    using slots [of 11] by simp
  ultimately show ?thesis by simp
qed

section \<open>LED updates\<close>

text \<open>
  C6. An LED update whose first argument is an int32 outside \<open>[0, ledCount)\<close> returns the
  state it was given: no LED is changed and nothing is written, whatever follows the
  index in the message.
\<close>

theorem led_update_out_of_range_dropped:
  "ledIndex < 0 \<or> ledCount s \<le> ledIndex \<Longrightarrow>
     handleLedMessage (OInt32 ledIndex # rest) s = Inr s"
  by (auto simp: handleLedMessage_def)

theorem led_update_out_of_range_dropped_witness:
  "((10::int) < 0 \<or> ledCount connectedApp \<le> 10)
   \<and> handleLedMessage [OInt32 10, OInt32 1, OInt32 0, OInt32 2] connectedApp = Inr connectedApp"
proof -
  have h: "(10::int) < 0 \<or> ledCount connectedApp \<le> 10"
    by (simp add: connectedApp_def)
  show ?thesis
    using h led_update_out_of_range_dropped [OF h, of "[OInt32 1, OInt32 0, OInt32 2]"] by simp
qed

lemma led_update_malformed_third:
  assumes "0 \<le> i" and "i < ledCount s" and "inRange i (leds s)" and "int32Of a2 = None"
  shows "handleLedMessage (OInt32 i # OInt32 v # a2 # rest) s
           = Inr (s\<lparr>leds := setOn i (v \<noteq> 0) (leds s)\<rparr>)"
  using assms by (simp add: handleLedMessage_def)

lemma led_update_malformed_fourth:
  assumes "0 \<le> i" and "i < ledCount s" and "inRange i (leds s)" and "int32Of a3 = None"
  shows "handleLedMessage (OInt32 i # OInt32 v # OInt32 t # a3 # rest) s
           = Inr (s\<lparr>leds := setTimer (nat i) t (setOn i (v \<noteq> 0) (leds s))\<rparr>)"
  using assms by (simp add: handleLedMessage_def)

text \<open>
  C5. What the code does with an LED update whose third or fourth argument is not an
  int32: the fields read before the bad argument have already been written to the LED,
  and nothing is written to the device. On LED 0 of the example state (dark, timer 0) the
  update \<open>(0, 1, "x")\<close> leaves \<open>on = True\<close>, and \<open>(0, 1, 7, "x")\<close> leaves \<open>on = True\<close> and
  \<open>timer = 7\<close>.
\<close>

theorem led_update_partial_write:
  "on (leds connectedApp ! 0) = False
   \<and> timer (leds connectedApp ! 0) = 0
   \<and> handleLedMessage [OInt32 0, OInt32 1, OString ''x''] connectedApp
       = Inr (connectedApp\<lparr>leds := (leds connectedApp)
                [0 := \<lparr>index = 0, on = True, timer = 0, state = Dark\<rparr>]\<rparr>)
   \<and> handleLedMessage [OInt32 0, OInt32 1, OInt32 7, OString ''x''] connectedApp
       = Inr (connectedApp\<lparr>leds := (leds connectedApp)
                [0 := \<lparr>index = 0, on = True, timer = 7, state = Dark\<rparr>]\<rparr>)"
  by code_simp

section \<open>Messages and the countdown\<close>

lemma display_update_keeps_countdown:
  "handleDisplayMessage message s = Inr s' \<Longrightarrow> heartbeat s' = heartbeat s"
  by (auto simp: handleDisplayMessage_def emit_def Let_def
      split: list.splits option.splits if_splits)

lemma pingAckArgs_completes:
  "i + length args \<le> 4 \<Longrightarrow> fst (pingAckArgs i args s)"
  by (induction args arbitrary: i s) auto

text \<open>
  C2, as the code has it. The countdown is 5 after every heartbeat message that has an
  argument, after every identity probe response that has one to four arguments, and
  after every LED update that is carried out: index in \<open>[0, ledCount)\<close> and inside the
  registry, then three int32 arguments, the last one an enumerator of \<open>LedStates\<close>.
\<close>

theorem accepted_messages_reset_countdown:
  "(message \<noteq> [] \<longrightarrow> heartbeat (handleHeartbeatMessage message s) = 5)
   \<and> (message \<noteq> [] \<and> length message \<le> 4 \<longrightarrow> heartbeat (handlePingAckMessage message s) = 5)
   \<and> (0 \<le> i \<and> i < ledCount s \<and> inRange i (leds s) \<and> 0 \<le> st \<and> st \<le> 3 \<longrightarrow>
        (\<exists>s'. handleLedMessage (OInt32 i # OInt32 v1 # OInt32 v2 # OInt32 st # rest) s = Inr s'
              \<and> heartbeat s' = 5))"
proof (intro conjI impI)
  assume "message \<noteq> []"
  then show "heartbeat (handleHeartbeatMessage message s) = 5"
    by (simp add: handleHeartbeatMessage_def Let_def split: prod.splits)
next
  assume a: "message \<noteq> [] \<and> length message \<le> 4"
  obtain completed s1 where p: "pingAckArgs 0 message s = (completed, s1)"
    by (cases "pingAckArgs 0 message s")
  have "completed"
    using pingAckArgs_completes [of 0 message s] a p by simp
  then show "heartbeat (handlePingAckMessage message s) = 5"
    using a p by (simp add: handlePingAckMessage_def Let_def)
next
  assume a: "0 \<le> i \<and> i < ledCount s \<and> inRange i (leds s) \<and> 0 \<le> st \<and> st \<le> 3"
  then have "st = 0 \<or> st = 1 \<or> st = 2 \<or> st = 3"
    by arith
  then obtain e where "ledStateOf st = Some e"
    by (auto simp: ledStateOf_def)
  then show "\<exists>s'. handleLedMessage (OInt32 i # OInt32 v1 # OInt32 v2 # OInt32 st # rest) s = Inr s'
              \<and> heartbeat s' = 5"
    using a by (simp add: handleLedMessage_def Let_def updateLedState_def emit_def)
qed

theorem accepted_messages_reset_countdown_witness:
  "heartbeat (connectedApp\<lparr>heartbeat := 2\<rparr>) = 2
   \<and> heartbeat (handleHeartbeatMessage [OString ''h'', OString ''v'', OInt32 10, OInt32 1]
        (connectedApp\<lparr>heartbeat := 2\<rparr>)) = 5
   \<and> heartbeat (handlePingAckMessage [OString ''h'', OString ''v'', OInt32 10, OInt32 1]
        (connectedApp\<lparr>heartbeat := 2\<rparr>)) = 5
   \<and> (\<exists>s'. handleLedMessage [OInt32 3, OInt32 1, OInt32 0, OInt32 2]
               (connectedApp\<lparr>heartbeat := 2\<rparr>) = Inr s'
          \<and> heartbeat s' = 5)"
proof -
  let ?s = "connectedApp\<lparr>heartbeat := 2\<rparr>"
  note reset = accepted_messages_reset_countdown
    [of "[OString ''h'', OString ''v'', OInt32 10, OInt32 1]" ?s 3 2 1 0 "[]"]
  have pre: "(0::int) \<le> 3 \<and> 3 < ledCount ?s \<and> inRange 3 (leds ?s) \<and> (0::int) \<le> 2 \<and> (2::int) \<le> 3"
    by (simp add: connectedApp_def inRange_def)
  have "heartbeat ?s = 2"
    by simp
  moreover have "heartbeat (handleHeartbeatMessage [OString ''h'', OString ''v'', OInt32 10, OInt32 1] ?s) = 5"
    using reset by simp
  moreover have "heartbeat (handlePingAckMessage [OString ''h'', OString ''v'', OInt32 10, OInt32 1] ?s) = 5"
    using reset by simp
  moreover have "\<exists>s'. handleLedMessage [OInt32 3, OInt32 1, OInt32 0, OInt32 2] ?s = Inr s'
          \<and> heartbeat s' = 5"
    using reset pre by blast
  ultimately show ?thesis by blast
qed

text \<open>
  C2 as the specification words it fails. The countdown of the example state is set to 2;
  it is still 2 after each of these messages of a recognised kind: an LED update for
  index 10 of the ten LEDs, an LED update whose on-flag is a string, a display update,
  an identity probe response with five arguments, and a heartbeat without arguments.
\<close>

theorem unaccepted_messages_keep_countdown:
  "heartbeat (connectedApp\<lparr>heartbeat := 2\<rparr>) = 2
   \<and> handleLedMessage [OInt32 10, OInt32 1, OInt32 0, OInt32 2] (connectedApp\<lparr>heartbeat := 2\<rparr>)
       = Inr (connectedApp\<lparr>heartbeat := 2\<rparr>)
   \<and> handleLedMessage [OInt32 3, OString ''on''] (connectedApp\<lparr>heartbeat := 2\<rparr>)
       = Inr (connectedApp\<lparr>heartbeat := 2\<rparr>)
   \<and> map_sum id heartbeat (handleDisplayMessage [OInt32 11] (connectedApp\<lparr>heartbeat := 2\<rparr>))
       = Inr 2
   \<and> heartbeat (handlePingAckMessage
         [OString ''h'', OString ''v'', OInt32 10, OInt32 1, OInt32 0] (connectedApp\<lparr>heartbeat := 2\<rparr>))
       = 2
   \<and> heartbeat (handleHeartbeatMessage [] (connectedApp\<lparr>heartbeat := 2\<rparr>)) = 2"
  by code_simp

section \<open>Ticks of a link that is down\<close>

lemma length_setOn: "length (setOn i b xs) = length xs"
  by (simp add: setOn_def)

lemma ledOff_loop:
  "\<forall>i\<in>set is. inRange i (leds s) \<Longrightarrow>
     forEach is ledOff s
       = Inr (s\<lparr>leds := fold (\<lambda>i. setOn i False) is (leds s),
                out := out s @ map (\<lambda>i. MidiWrite 107 (ledNumber i)) is\<rparr>)"
proof (induction "is" arbitrary: s)
  case Nil
  show ?case by simp
next
  case (Cons i "is")
  let ?s1 = "emit (MidiWrite 107 (ledNumber i)) (s\<lparr>leds := setOn i False (leds s)\<rparr>)"
  have first: "ledOff i s = Inr ?s1"
    using Cons.prems by (simp add: ledOff_def)
  have rest: "\<forall>j\<in>set is. inRange j (leds ?s1)"
    using Cons.prems by (simp add: inRange_def emit_def length_setOn)
  show ?case
    using Cons.IH [OF rest] first by (simp add: emit_def)
qed

lemma nth_fold_setOn:
  "\<forall>i\<in>set is. 0 \<le> i \<Longrightarrow> k < length xs \<Longrightarrow>
     fold (\<lambda>i. setOn i False) is xs ! k
       = (if int k \<in> set is then (xs ! k)\<lparr>on := False\<rparr> else xs ! k)"
proof (induction "is" arbitrary: xs)
  case Nil
  show ?case by simp
next
  case (Cons i "is")
  have len: "k < length (setOn i False xs)"
    using Cons.prems by (simp add: length_setOn)
  have nonneg: "\<forall>j\<in>set is. 0 \<le> j" and i: "0 \<le> i"
    using Cons.prems by simp_all
  have here: "setOn i False xs ! k = (if int k = i then (xs ! k)\<lparr>on := False\<rparr> else xs ! k)"
    using Cons.prems(2) i by (auto simp: setOn_def nth_list_update)
  show ?case
    using Cons.IH [OF nonneg len] here by auto
qed

lemma length_fold_setOn: "length (fold (\<lambda>i. setOn i False) is xs) = length xs"
  by (induction "is" arbitrary: xs) (simp_all add: length_setOn)

lemma tryToConnectOsc_ports:
  assumes ps: "ps = (if currentSendPort s < 0 \<and> senderConnects w then oscSendPort s
                     else currentSendPort s)"
    and pr: "pr = (if currentReceivePort s < 0 \<and> isValidOscPort (oscReceivePort s)
                      \<and> receiverConnects w
                   then oscReceivePort s else currentReceivePort s)"
  shows "tryToConnectOsc w s
     = (0 < ps \<and> 0 < pr,
        s\<lparr>currentSendPort := ps, currentReceivePort := pr,
           out := out s @ (if 0 < ps \<and> 0 < pr \<and> \<not> pinged s
                           then [OscSend ''/loop4r/ping''
                                  [OString ''127.0.0.1'', OInt32 pr, OString ''/pingack'']]
                           else [])\<rparr>)"
proof -
  let ?s1 = "if currentSendPort s < 0 \<and> senderConnects w
             then s\<lparr>currentSendPort := oscSendPort s\<rparr> else s"
  let ?s2 = "if currentReceivePort ?s1 < 0 then connect w ?s1 else ?s1"
  have s1: "?s1 = s\<lparr>currentSendPort := ps\<rparr>"
    by (simp add: ps)
  have recv: "connect w (s\<lparr>currentSendPort := ps\<rparr>)
      = (if isValidOscPort (oscReceivePort s) \<and> receiverConnects w
         then s\<lparr>currentSendPort := ps, currentReceivePort := oscReceivePort s\<rparr>
         else s\<lparr>currentSendPort := ps\<rparr>)"
    by (simp add: connect_def Let_def)
  have s2: "?s2 = s\<lparr>currentSendPort := ps, currentReceivePort := pr\<rparr>"
  proof (cases "currentReceivePort s < 0")
    case True
    then show ?thesis
      unfolding s1 by (simp add: recv) (simp add: pr)
  next
    case False
    then show ?thesis
      unfolding s1 by (simp add: pr)
  qed
  have "tryToConnectOsc w s
      = (if currentSendPort ?s2 > 0 \<and> currentReceivePort ?s2 > 0
         then (True,
               if \<not> pinged ?s2
               then emit (OscSend ''/loop4r/ping''
                      [OString ''127.0.0.1'', OInt32 (currentReceivePort ?s2), OString ''/pingack'']) ?s2
               else ?s2)
         else (False, ?s2))"
    by (simp only: tryToConnectOsc_def Let_def)
  also have "\<dots> = (0 < ps \<and> 0 < pr,
        s\<lparr>currentSendPort := ps, currentReceivePort := pr,
           out := out s @ (if 0 < ps \<and> 0 < pr \<and> \<not> pinged s
                           then [OscSend ''/loop4r/ping''
                                  [OString ''127.0.0.1'', OInt32 pr, OString ''/pingack'']]
                           else [])\<rparr>)"
    unfolding s2 by (simp add: emit_def)
  finally show ?thesis .
qed

lemma openMidiOut_cases:
  assumes "opensDevice w s \<longrightarrow> 10 \<le> length (leds s)"
  shows "openMidiOut w s
           = Inr (if opensDevice w s
                  then s\<lparr>midiOut := True,
                         leds := fold (\<lambda>i. setOn i False) [0..9] (leds s),
                         out := out s @ map (\<lambda>i. MidiWrite 107 (ledNumber i)) [0..9]\<rparr>
                  else s)"
proof (cases "opensDevice w s")
  case False
  then show ?thesis
    by (auto simp: openMidiOut_def opensDevice_def)
next
  case True
  then have "10 \<le> length (leds s)"
    using assms by simp
  then have "\<forall>i\<in>set [0..9]. inRange i (leds (s\<lparr>midiOut := True\<rparr>))"
    by (auto simp: inRange_def)
  from ledOff_loop [OF this] True show ?thesis
    by (simp add: openMidiOut_def opensDevice_def NUM_LED_PEDALS_def)
qed

lemma ledOff_loop_faults:
  assumes "0 \<le> m" and "m \<le> 9" and "length (leds s) = nat m"
  shows "forEach [0..9] ledOff s = Inl (ArrayIndexOutOfRange m)"
proof -
  have split: "[0..9] = [0..m - 1] @ m # [m + 1..9]"
    using assms(1,2) by (rule upto_split3)
  have inside: "\<forall>i\<in>set [0..m - 1]. inRange i (leds s)"
    using assms by (auto simp: inRange_def)
  let ?s1 = "s\<lparr>leds := fold (\<lambda>i. setOn i False) [0..m - 1] (leds s),
                out := out s @ map (\<lambda>i. MidiWrite 107 (ledNumber i)) [0..m - 1]\<rparr>"
  have first: "forEach [0..m - 1] ledOff s = Inr ?s1"
    using ledOff_loop [OF inside] .
  have outside: "\<not> inRange m (leds ?s1)"
    using assms by (simp add: inRange_def length_fold_setOn)
  have "forEach (m # [m + 1..9]) ledOff ?s1 = Inl (ArrayIndexOutOfRange m)"
    using outside by (simp add: ledOff_def)
  then show ?thesis
    by (simp only: split forEach_append first thenDo.simps)
qed

lemma openMidiOut_faults:
  assumes "opensDevice w s" and "length (leds s) < 10"
  shows "openMidiOut w s = Inl (ArrayIndexOutOfRange (int (length (leds s))))"
proof -
  have "forEach [0..9] ledOff (s\<lparr>midiOut := True\<rparr>)
          = Inl (ArrayIndexOutOfRange (int (length (leds s))))"
    using assms(2) by (intro ledOff_loop_faults) simp_all
  then show ?thesis
    using assms(1) by (simp add: openMidiOut_def opensDevice_def NUM_LED_PEDALS_def)
qed

text \<open>
  C10, as the code has it. A tick that finds a port unbound runs neither the countdown
  step nor the blink loop. When it opens the output device and the registry has fewer
  than ten LEDs, the initialisation indexes past the registry and the tick faults.
  Otherwise the tick returns, and: no LED's timer or state changes; \<open>on\<close> changes only
  when this very tick opens the output device, which switches LEDs 0 to 9 off; the only
  frames written are the ten of that initialisation; no port is unbound (a bound port
  keeps its number, an unbound one stays unbound or is bound to the configured port by
  the connect attempt); the countdown is not decremented (it is set to 5 when the
  connect attempt has brought both ports up, and that is when the identity probe is
  sent, unless \<open>pinged\<close>); no heartbeat probe is sent; every other member is unchanged.
\<close>

theorem link_down_tick:
  assumes "\<not> linked s"
  shows "(opensDevice w s \<and> length (leds s) < 10 \<longrightarrow>
            timerCallback w s = Inl (ArrayIndexOutOfRange (int (length (leds s)))))
         \<and> ((opensDevice w s \<longrightarrow> 10 \<le> length (leds s)) \<longrightarrow>
            (\<exists>s'. timerCallback w s = Inr s'
               \<and> length (leds s') = length (leds s)
               \<and> (\<forall>k < length (leds s).
                     leds s' ! k = (if opensDevice w s \<and> k < 10 then (leds s ! k)\<lparr>on := False\<rparr>
                                   else leds s ! k))
               \<and> filter isMidiWrite (out s')
                   = filter isMidiWrite (out s)
                     @ (if opensDevice w s then map (\<lambda>i. MidiWrite 107 (ledNumber i)) [0..9] else [])
               \<and> currentSendPort s'
                   = (if currentSendPort s < 0 \<and> senderConnects w then oscSendPort s
                      else currentSendPort s)
               \<and> currentReceivePort s'
                   = (if currentReceivePort s < 0 \<and> isValidOscPort (oscReceivePort s)
                         \<and> receiverConnects w
                      then oscReceivePort s else currentReceivePort s)
               \<and> heartbeat s' = (if 0 < currentSendPort s' \<and> 0 < currentReceivePort s' then 5
                                  else heartbeat s)
               \<and> out s'
                   = out s
                     @ (if opensDevice w s then map (\<lambda>i. MidiWrite 107 (ledNumber i)) [0..9] else [])
                     @ (if 0 < currentSendPort s' \<and> 0 < currentReceivePort s' \<and> \<not> pinged s
                        then [OscSend ''/loop4r/ping''
                               [OString ''127.0.0.1'', OInt32 (currentReceivePort s'), OString ''/pingack'']]
                        else [])
               \<and> count_list (out s') (heartbeatProbe s') = count_list (out s) (heartbeatProbe s')
               \<and> midiOut s' = (midiOut s \<or> opensDevice w s)
               \<and> s'\<lparr>leds := leds s, out := out s, currentSendPort := currentSendPort s,
                      currentReceivePort := currentReceivePort s, heartbeat := heartbeat s,
                      midiOut := midiOut s\<rparr> = s))"
proof (intro conjI impI)
  assume "opensDevice w s \<and> length (leds s) < 10"
  then show "timerCallback w s = Inl (ArrayIndexOutOfRange (int (length (leds s))))"
    by (simp add: timerCallback_def openMidiOut_faults)
next
  assume enough: "opensDevice w s \<longrightarrow> 10 \<le> length (leds s)"
  let ?frames = "map (\<lambda>i. MidiWrite 107 (ledNumber i)) [0..9]"
  define s0 where "s0 = (if opensDevice w s
             then s\<lparr>midiOut := True, leds := fold (\<lambda>i. setOn i False) [0..9] (leds s),
                    out := out s @ ?frames\<rparr>
             else s)"
  define ps where "ps = (if currentSendPort s < 0 \<and> senderConnects w then oscSendPort s
                         else currentSendPort s)"
  define pr where "pr = (if currentReceivePort s < 0 \<and> isValidOscPort (oscReceivePort s)
                            \<and> receiverConnects w
                         then oscReceivePort s else currentReceivePort s)"
  let ?probe = "if 0 < ps \<and> 0 < pr \<and> \<not> pinged s
                then [OscSend ''/loop4r/ping'' [OString ''127.0.0.1'', OInt32 pr, OString ''/pingack'']]
                else []"
  define s1 where "s1 = s0\<lparr>currentSendPort := ps, currentReceivePort := pr, out := out s0 @ ?probe\<rparr>"
  define s' where "s' = (if 0 < ps \<and> 0 < pr then s1\<lparr>heartbeat := 5\<rparr> else s1)"
  have same: "currentSendPort s0 = currentSendPort s" "currentReceivePort s0 = currentReceivePort s"
    "oscSendPort s0 = oscSendPort s" "oscReceivePort s0 = oscReceivePort s"
    "pinged s0 = pinged s" "heartbeat s0 = heartbeat s"
    by (simp_all add: s0_def)
  have leds0: "leds s0 = (if opensDevice w s then fold (\<lambda>i. setOn i False) [0..9] (leds s) else leds s)"
    and out0: "out s0 = out s @ (if opensDevice w s then ?frames else [])"
    and dev0: "midiOut s0 = (midiOut s \<or> opensDevice w s)"
    by (auto simp: s0_def opensDevice_def)
  have frame0: "s0\<lparr>leds := leds s, out := out s, midiOut := midiOut s\<rparr> = s"
    by (simp add: s0_def)
  have opened: "openMidiOut w s = Inr s0"
    using openMidiOut_cases [OF enough] by (simp only: s0_def)
  have down: "currentReceivePort s0 < 0 \<or> currentSendPort s0 < 0"
    using assms by (simp add: linked_def same)
  have conn: "tryToConnectOsc w s0 = (0 < ps \<and> 0 < pr, s1)"
    unfolding s1_def
    by (rule tryToConnectOsc_ports [of ps s0 w pr, unfolded same]) (simp_all only: ps_def pr_def)
  have run: "timerCallback w s = Inr s'"
    using down
    by (simp only: timerCallback_def opened thenDo.simps conn if_True Let_def prod.case s'_def)
  have leds': "leds s' = leds s0" and out': "out s' = out s0 @ ?probe"
    and sp: "currentSendPort s' = ps" and rp: "currentReceivePort s' = pr"
    and dev': "midiOut s' = midiOut s0"
    and hb': "heartbeat s' = (if 0 < ps \<and> 0 < pr then 5 else heartbeat s0)"
    by (simp_all add: s'_def s1_def)
  have len: "length (leds s') = length (leds s)"
    by (simp add: leds' leds0 length_fold_setOn)
  have nonneg: "\<forall>i\<in>set [0..9]. (0::int) \<le> i"
    by simp
  have each: "\<forall>k < length (leds s).
      leds s' ! k = (if opensDevice w s \<and> k < 10 then (leds s ! k)\<lparr>on := False\<rparr> else leds s ! k)"
    using nth_fold_setOn [OF nonneg] by (auto simp: leds' leds0)
  have outs: "out s' = out s @ (if opensDevice w s then ?frames else []) @ ?probe"
    by (simp add: out' out0)
  have noframes: "filter isMidiWrite ?probe = []"
    by simp
  have allframes: "filter isMidiWrite ?frames = ?frames"
    by (simp add: filter_map comp_def)
  have writes: "filter isMidiWrite (out s')
               = filter isMidiWrite (out s) @ (if opensDevice w s then ?frames else [])"
    unfolding outs using noframes allframes by simp
  have hb: "heartbeat s' = (if 0 < currentSendPort s' \<and> 0 < currentReceivePort s' then 5
                              else heartbeat s)"
    by (simp only: hb' sp rp same)
  have noprobe: "count_list ?probe (heartbeatProbe x) = 0"
    and noprobe2: "count_list ?frames (heartbeatProbe x) = 0" for x
    by (auto simp: heartbeatProbe_def count_list_0_iff)
  have noprobe3: "count_list (if opensDevice w s then ?frames else []) (heartbeatProbe x) = 0" for x
    using noprobe2 by simp
  have cnt: "count_list (out s') (heartbeatProbe s') = count_list (out s) (heartbeatProbe s')"
    unfolding outs by (simp only: count_list_append noprobe noprobe3 add_0_right)
  have dev: "midiOut s' = (midiOut s \<or> opensDevice w s)"
    by (simp only: dev' dev0)
  have "s'\<lparr>leds := leds s, out := out s, currentSendPort := currentSendPort s,
            currentReceivePort := currentReceivePort s, heartbeat := heartbeat s,
            midiOut := midiOut s\<rparr>
        = s0\<lparr>leds := leds s, out := out s, midiOut := midiOut s,
             currentSendPort := currentSendPort s, currentReceivePort := currentReceivePort s,
             heartbeat := heartbeat s\<rparr>"
    by (simp add: s'_def s1_def)
  also have "\<dots> = s\<lparr>currentSendPort := currentSendPort s,
      currentReceivePort := currentReceivePort s, heartbeat := heartbeat s\<rparr>"
    using frame0 by simp
  finally have frame: "s'\<lparr>leds := leds s, out := out s, currentSendPort := currentSendPort s,
                   currentReceivePort := currentReceivePort s, heartbeat := heartbeat s,
                   midiOut := midiOut s\<rparr> = s"
    by simp
  have outs': "out s' = out s @ (if opensDevice w s then ?frames else [])
      @ (if 0 < currentSendPort s' \<and> 0 < currentReceivePort s' \<and> \<not> pinged s
         then [OscSend ''/loop4r/ping''
                [OString ''127.0.0.1'', OInt32 (currentReceivePort s'), OString ''/pingack'']]
         else [])"
    unfolding sp rp by (rule outs)
  show "\<exists>s'. timerCallback w s = Inr s'
               \<and> length (leds s') = length (leds s)
               \<and> (\<forall>k < length (leds s).
                     leds s' ! k = (if opensDevice w s \<and> k < 10 then (leds s ! k)\<lparr>on := False\<rparr>
                                   else leds s ! k))
               \<and> filter isMidiWrite (out s')
                   = filter isMidiWrite (out s)
                     @ (if opensDevice w s then map (\<lambda>i. MidiWrite 107 (ledNumber i)) [0..9] else [])
               \<and> currentSendPort s'
                   = (if currentSendPort s < 0 \<and> senderConnects w then oscSendPort s
                      else currentSendPort s)
               \<and> currentReceivePort s'
                   = (if currentReceivePort s < 0 \<and> isValidOscPort (oscReceivePort s)
                         \<and> receiverConnects w
                      then oscReceivePort s else currentReceivePort s)
               \<and> heartbeat s' = (if 0 < currentSendPort s' \<and> 0 < currentReceivePort s' then 5
                                  else heartbeat s)
               \<and> out s'
                   = out s
                     @ (if opensDevice w s then map (\<lambda>i. MidiWrite 107 (ledNumber i)) [0..9] else [])
                     @ (if 0 < currentSendPort s' \<and> 0 < currentReceivePort s' \<and> \<not> pinged s
                        then [OscSend ''/loop4r/ping''
                               [OString ''127.0.0.1'', OInt32 (currentReceivePort s'), OString ''/pingack'']]
                        else [])
               \<and> count_list (out s') (heartbeatProbe s') = count_list (out s) (heartbeatProbe s')
               \<and> midiOut s' = (midiOut s \<or> opensDevice w s)
               \<and> s'\<lparr>leds := leds s, out := out s, currentSendPort := currentSendPort s,
                      currentReceivePort := currentReceivePort s, heartbeat := heartbeat s,
                      midiOut := midiOut s\<rparr> = s"
    using run len each writes sp [unfolded ps_def] rp [unfolded pr_def] hb outs' cnt dev frame
    by (intro exI [of _ s'] conjI)
qed

theorem link_down_tick_witness:
  "\<not> linked offlineApp \<and> opensDevice deviceWorld offlineApp \<and> 10 \<le> length (leds offlineApp)
   \<and> (\<exists>s'. timerCallback deviceWorld offlineApp = Inr s'
          \<and> leds s' ! 0 = \<lparr>index = 0, on = False, timer = 0, state = Light\<rparr>
          \<and> heartbeat s' = 2
          \<and> currentSendPort s' = - 1 \<and> currentReceivePort s' = 9001)
   \<and> \<not> linked crampedApp \<and> opensDevice deviceWorld crampedApp \<and> length (leds crampedApp) < 10
   \<and> timerCallback deviceWorld crampedApp = Inl (ArrayIndexOutOfRange 3)"
proof -
  have a: "\<not> linked offlineApp" and o: "opensDevice deviceWorld offlineApp"
    and n: "10 \<le> length (leds offlineApp)"
    by (simp_all add: linked_def opensDevice_def offlineApp_def connectedApp_def deviceWorld_def)
  have l0: "leds offlineApp ! 0 = \<lparr>index = 0, on = True, timer = 0, state = Light\<rparr>"
    and h: "heartbeat offlineApp = 2" and sp: "currentSendPort offlineApp = - 1"
    and rp: "currentReceivePort offlineApp = 9001" and len: "length (leds offlineApp) = 10"
    and nosend: "\<not> senderConnects deviceWorld"
    by (simp_all add: offlineApp_def connectedApp_def deviceWorld_def)
  have a': "\<not> linked crampedApp" and o': "opensDevice deviceWorld crampedApp"
    and len': "length (leds crampedApp) = 3"
    by (simp_all add: linked_def opensDevice_def crampedApp_def offlineApp_def connectedApp_def
        deviceWorld_def upto_rec_numeral)
  note up = link_down_tick [OF a, of deviceWorld]
  note cramped = link_down_tick [OF a', of deviceWorld]
  obtain s' where run: "timerCallback deviceWorld offlineApp = Inr s'"
    and each: "\<forall>k < length (leds offlineApp).
        leds s' ! k = (if opensDevice deviceWorld offlineApp \<and> k < 10
                       then (leds offlineApp ! k)\<lparr>on := False\<rparr> else leds offlineApp ! k)"
    and sp': "currentSendPort s'
        = (if currentSendPort offlineApp < 0 \<and> senderConnects deviceWorld then oscSendPort offlineApp
           else currentSendPort offlineApp)"
    and rp': "currentReceivePort s'
        = (if currentReceivePort offlineApp < 0 \<and> isValidOscPort (oscReceivePort offlineApp)
              \<and> receiverConnects deviceWorld
           then oscReceivePort offlineApp else currentReceivePort offlineApp)"
    and hb: "heartbeat s' = (if 0 < currentSendPort s' \<and> 0 < currentReceivePort s' then 5
                             else heartbeat offlineApp)"
    using up n by blast
  have l0': "leds s' ! 0 = \<lparr>index = 0, on = False, timer = 0, state = Light\<rparr>"
    using each o by (simp add: l0 len)
  have sp'': "currentSendPort s' = - 1" and rp'': "currentReceivePort s' = 9001"
    using sp' rp' by (simp_all add: sp rp nosend)
  have hb': "heartbeat s' = 2"
    using hb by (simp add: sp'' h)
  have fault: "timerCallback deviceWorld crampedApp = Inl (ArrayIndexOutOfRange 3)"
    using cramped o' by (simp add: len')
  have small: "length (leds crampedApp) < 10"
    by (simp add: len')
  show ?thesis
    using a o n run l0' hb' sp'' rp'' a' o' small fault by blast
qed

text \<open>
  C10 as the specification words it fails: the link of \<open>offlineApp\<close> is down and its LED 0
  is lit; the tick opens the device, LED 0 is off afterwards and ten frames have been
  written.
\<close>

theorem link_down_tick_counterexample:
  "\<not> linked offlineApp
   \<and> onAt 0 (Inr offlineApp) = Some True
   \<and> onAt 0 (timerCallback deviceWorld offlineApp) = Some False
   \<and> timerCallback deviceWorld offlineApp
       = Inr (offlineApp\<lparr>midiOut := True,
                leds := (leds offlineApp)[0 := \<lparr>index = 0, on = False, timer = 0, state = Light\<rparr>],
                out := [MidiWrite 107 1, MidiWrite 107 2, MidiWrite 107 3, MidiWrite 107 4,
                        MidiWrite 107 5, MidiWrite 107 6, MidiWrite 107 7, MidiWrite 107 8,
                        MidiWrite 107 9, MidiWrite 107 0]\<rparr>)"
  by code_simp

end
